theory Spec2Isabelle
  imports Main
begin

section \<open>Errors and the persisted parameter file\<close>

text \<open>
  The exceptions of \<open>sq-encoder.py\<close> that the model distinguishes.  The source
  raises Python's built-in exceptions; the specification's names are given beside them:
  \<^item> \<open>FileNotFoundError\<close>: \<open>open(path, 'r')\<close> on a path that was never
    written (the specification's \<open>MissingParameters\<close>), \<open>open(path, 'w')\<close> on a
    path whose directory does not exist or on the empty path;
  \<^item> \<open>PermissionError\<close>, \<open>IsADirectoryError\<close>: the other ways in which
    \<open>open(path, 'w')\<close> fails;
  \<^item> \<open>ValueError\<close>: \<open>max\<close> of an empty list, \<open>list.index\<close> of an absent
    value (the specification's \<open>ValueNotFound\<close>), unpacking a list that does not
    have exactly two elements;
  \<^item> \<open>IndexError\<close>: list subscript out of range (the specification's
    \<open>IndexOutOfRange\<close>);
  \<^item> \<open>ZeroDivisionError\<close>: \<open>//\<close> by zero.
\<close>

datatype error =
  FileNotFoundError | PermissionError | IsADirectoryError
  | ValueError | IndexError | ZeroDivisionError

text \<open>
  The file system as far as the program uses it: a map from paths to the JSON value
  stored there.  The only value the program ever writes is a list of integers.
\<close>

type_synonym files = "string \<rightharpoonup> int list"

text \<open>\<open>JsonFile.load\<close>: open the file for reading and parse it.\<close>

definition JsonFile_load :: "files \<Rightarrow> string \<Rightarrow> error + int list" where
  "JsonFile_load fs path = (case fs path of None \<Rightarrow> Inl FileNotFoundError | Some data \<Rightarrow> Inr data)"

text \<open>
  Whether a path can be opened for writing is decided by the operating system (the
  directory exists, the process may write there, the path is not a directory):
  \<open>open_w path\<close> is the exception that \<open>open(path, 'w')\<close> raises, \<open>None\<close> when the
  file opens.
\<close>

type_synonym open_w = "string \<Rightarrow> error option"

text \<open>
  \<open>JsonFile.dump\<close>: open the file for writing (truncating it) and write the data.
  When \<open>open\<close> raises, nothing is written.
\<close>

definition JsonFile_dump :: "open_w \<Rightarrow> files \<Rightarrow> string \<Rightarrow> int list \<Rightarrow> error + files" where
  "JsonFile_dump open_w fs path data =
     (case open_w path of Some e \<Rightarrow> Inl e | None \<Rightarrow> Inr (fs(path \<mapsto> data)))"

section \<open>NaryEncoder\<close>

record NaryEncoder =
  json_path :: string
  ln :: int
  mx :: int

text \<open>\<open>NaryEncoder.__init__\<close>\<close>

definition NaryEncoder_init :: "string \<Rightarrow> NaryEncoder" where
  "NaryEncoder_init path = \<lparr>json_path = path, ln = 0, mx = 0\<rparr>"

text \<open>Python's \<open>max\<close> on a list: \<open>ValueError\<close> on the empty list, otherwise a left-to-right scan.\<close>

definition py_max :: "int list \<Rightarrow> error + int" where
  "py_max xs = (case xs of [] \<Rightarrow> Inl ValueError | x # ys \<Rightarrow> Inr (fold max ys x))"

text \<open>
  \<open>NaryEncoder.encode(l, l_master)\<close>.  The result is the returned integer or the
  exception raised, together with the object and the file system as the call leaves
  them: \<open>self.ln\<close> is assigned before \<open>max\<close> can raise, both fields are assigned
  before \<open>j.dump\<close> can raise, and the sum is computed only after the file is written.
\<close>

definition NaryEncoder_encode ::
  "NaryEncoder \<Rightarrow> open_w \<Rightarrow> files \<Rightarrow> int list \<Rightarrow> int list
     \<Rightarrow> (error + int) \<times> NaryEncoder \<times> files" where
  "NaryEncoder_encode self open_w fs l l_master =
     (let self1 = self\<lparr>ln := int (length l)\<rparr> in
      case py_max l_master of
        Inl e \<Rightarrow> (Inl e, self1, fs)
      | Inr m \<Rightarrow>
          (let self2 = self1\<lparr>mx := m\<rparr> in
           (case JsonFile_dump open_w fs (json_path self2) [ln self2, mx self2] of
              Inl e \<Rightarrow> (Inl e, self2, fs)
            | Inr fs2 \<Rightarrow>
                (let enc = map (\<lambda>(i, x). mx self2 ^ i * x) (enumerate 0 l)
                 in (Inr (sum_list enc), self2, fs2)))))"

text \<open>
  The loop of \<open>decode\<close> over \<open>range(self.ln - 1, -1, -1)\<close>: the list of the
  remaining values of \<open>i\<close>, the running \<open>remainder\<close> and the list \<open>dec\<close> built so far.
  Python's \<open>//\<close> and \<open>%\<close> on integers are floor division and its remainder, which is
  what \<open>div\<close> and \<open>mod\<close> are on \<open>int\<close>; both raise on a zero divisor.
\<close>

fun decode_loop :: "int \<Rightarrow> nat list \<Rightarrow> int \<Rightarrow> int list \<Rightarrow> error + int list" where
  "decode_loop m [] remainder dec = Inr dec"
| "decode_loop m (i # is) remainder dec =
     (let d = m ^ i in
      if d = 0 then Inl ZeroDivisionError
      else decode_loop m is (remainder mod d) (dec @ [remainder div d]))"

text \<open>
  \<open>NaryEncoder.decode(enc)\<close>.  When both in-memory parameters are 0 the pair is
  read from the file (and stored in the object); unpacking anything but a two-element
  list raises \<open>ValueError\<close> before either field is assigned.
\<close>

definition NaryEncoder_decode :: "NaryEncoder \<Rightarrow> files \<Rightarrow> int \<Rightarrow> (error + int list) \<times> NaryEncoder" where
  "NaryEncoder_decode self fs enc =
     (let loaded =
        (if ln self = 0 \<and> mx self = 0 then
           (case JsonFile_load fs (json_path self) of
              Inl e \<Rightarrow> Inl e
            | Inr [a, b] \<Rightarrow> Inr (self\<lparr>ln := a, mx := b\<rparr>)
            | Inr _ \<Rightarrow> Inl ValueError)
         else Inr self)
      in case loaded of
           Inl e \<Rightarrow> (Inl e, self)
         | Inr self1 \<Rightarrow>
             (case decode_loop (mx self1) (rev [0..<nat (ln self1)]) enc [] of
                Inl e \<Rightarrow> (Inl e, self1)
              | Inr dec \<Rightarrow> (Inr (rev dec), self1)))"

text \<open>
  The value \<open>\<Sum> v[i] * m^i\<close> of a list of digits in base \<open>m\<close> (not a function of the
  source: the notion the statements about \<open>encode\<close> and \<open>decode\<close> are phrased with).
\<close>

definition digit_sum :: "int \<Rightarrow> int list \<Rightarrow> int" where
  "digit_sum m v = (\<Sum>i<length v. v ! i * m ^ i)"

section \<open>The adaptive generator create_qr_code\<close>

text \<open>
  The external encoder is a parameter of the model.  \<open>create k version mode\<close> is what
  the \<open>k\<close>-th call (counting from 0) of \<open>pyqrcode.create(value, error=error,
  version=version, mode=mode)\<close> does: it returns a code object (\<open>Inr\<close>) or raises an
  exception, of which the model keeps \<open>str(ex)\<close> (\<open>Inl\<close>).  \<open>value\<close> and \<open>error\<close>
  do not change during a call of \<open>create_qr_code\<close> and are part of the parameter.
  \<open>png code\<close> is \<open>code.png(path, scale=..., module_color=..., background=...)\<close>:
  \<open>None\<close> when it returns, the message when it raises.
\<close>

type_synonym 'c create = "nat \<Rightarrow> int \<Rightarrow> string \<Rightarrow> string + 'c"

type_synonym 'c png = "'c \<Rightarrow> string option"

text \<open>
  How a call ends without an image: \<open>ValueError('max iteration exceeded')\<close> (the
  specification's \<open>MaxIterationExceeded\<close>), the encoder's exception re-raised by
  \<open>raise ex\<close>, or an exception of \<open>code.png\<close>, which the \<open>else\<close> branch does not catch.
\<close>

datatype failure = MaxIterationExceeded | EncoderError string | RenderError string

text \<open>
  What a call leaves behind: the code that was rendered or the failure, the number of
  calls of \<open>pyqrcode.create\<close> it made, and the last values of \<open>mode\<close> and \<open>version\<close>.
\<close>

record 'c run =
  result :: "failure + 'c"
  attempts :: nat
  final_mode :: string
  final_version :: int

text \<open>\<open>[a-z]\<close> and \<open>\d\<close> on the characters of a message.\<close>

definition is_lower :: "char \<Rightarrow> bool" where
  "is_lower c = (97 \<le> (of_char c :: nat) \<and> (of_char c :: nat) \<le> 122)"

definition is_digit :: "char \<Rightarrow> bool" where
  "is_digit c = (48 \<le> (of_char c :: nat) \<and> (of_char c :: nat) \<le> 57)"

text \<open>\<open>str\<close> of an integer, as the f-string interpolates \<open>version\<close>.\<close>

fun str_nat :: "nat \<Rightarrow> string" where
  "str_nat n =
     (if n < 10 then [char_of (48 + n)]
      else str_nat (n div 10) @ [char_of (48 + n mod 10)])"

definition str :: "int \<Rightarrow> string" where
  "str i = (if i < 0 then CHR ''-'' # str_nat (nat (- i)) else str_nat (nat i))"

text \<open>\<open>int\<close> of a string of decimal digits.\<close>

definition int_of_digits :: "string \<Rightarrow> int" where
  "int_of_digits ds = foldl (\<lambda>acc c. 10 * acc + (int (of_char c) - 48)) 0 ds"

text \<open>
  \<open>re.match(pattern, s)\<close> for a pattern of the shape \<open>literal (class+) literal\<close>: the
  match is anchored at the start of \<open>s\<close> only, the group is the longest run of
  characters of the class (a shorter run would have to be followed by the closing
  literal, whose first character is not in the class), it must not be empty, and the
  closing literal must follow.  The result is the group.
\<close>

definition match_group :: "string \<Rightarrow> (char \<Rightarrow> bool) \<Rightarrow> string \<Rightarrow> string \<Rightarrow> string option" where
  "match_group pre cls post s =
     (if take (length pre) s = pre then
        (let rest = drop (length pre) s;
             g = takeWhile cls rest;
             rest' = dropWhile cls rest
         in if g \<noteq> [] \<and> take (length post) rest' = post then Some g else None)
      else None)"



text \<open>
  The two patterns of \<open>create_qr_code\<close>.  The current \<open>mode\<close> and \<open>version\<close> are
  interpolated into the pattern; the model takes the interpolated text literally.  That
  is what the regular expression does for every \<open>version\<close> (\<open>str\<close> of an integer has
  no metacharacter) and for every \<open>mode\<close> with \<open>plain_mode mode\<close>; the model says
  nothing faithful about other modes, and the statements below that range over modes
  are restricted to plain ones.
\<close>

definition match_mode :: "string \<Rightarrow> string \<Rightarrow> string option" where
  "match_mode mode s =
     match_group (''The content provided cannot be encoded with the mode '' @ mode
                    @ '', it can only be encoded as '')
       is_lower ''.'' s"

definition match_version :: "int \<Rightarrow> string \<Rightarrow> int option" where
  "match_version version s =
     map_option int_of_digits
       (match_group (''The data will not fit inside a version '' @ str version
                       @ '' code with the given encoding and error level (the code must be at least a version '')
          is_digit '').'' s)"

text \<open>
  The \<open>while True\<close> loop.  \<open>itercnt\<close>, \<open>version\<close> and \<open>mode\<close> are the variables of
  the source at the top of the loop body; \<open>calls\<close> counts the calls of
  \<open>pyqrcode.create\<close> made so far.
\<close>

function create_loop ::
  "'c create \<Rightarrow> 'c png \<Rightarrow> bool \<Rightarrow> int \<Rightarrow> int \<Rightarrow> int \<Rightarrow> string \<Rightarrow> nat \<Rightarrow> 'c run" where
  "create_loop create png adjust max_iteration itercnt version mode calls =
     (if itercnt + 1 \<ge> max_iteration then
        \<lparr>result = Inl MaxIterationExceeded, attempts = calls,
         final_mode = mode, final_version = version\<rparr>
      else
        (case create calls version mode of
           Inr code \<Rightarrow>
             (case png code of
                None \<Rightarrow> \<lparr>result = Inr code, attempts = calls + 1,
                          final_mode = mode, final_version = version\<rparr>
              | Some ex \<Rightarrow> \<lparr>result = Inl (RenderError ex), attempts = calls + 1,
                             final_mode = mode, final_version = version\<rparr>)
         | Inl ex \<Rightarrow>
             if \<not> adjust then
               \<lparr>result = Inl (EncoderError ex), attempts = calls + 1,
                final_mode = mode, final_version = version\<rparr>
             else
               (case match_mode mode ex of
                  Some m \<Rightarrow>
                    create_loop create png adjust max_iteration (itercnt + 1) version m (calls + 1)
                | None \<Rightarrow>
                    (case match_version version ex of
                       Some v \<Rightarrow>
                         create_loop create png adjust max_iteration (itercnt + 1) v mode (calls + 1)
                     | None \<Rightarrow>
                         \<lparr>result = Inl (EncoderError ex), attempts = calls + 1,
                          final_mode = mode, final_version = version\<rparr>))))"
  by pat_completeness auto
termination
  by (relation "measure (\<lambda>(create, png, adjust, max_iteration, itercnt, version, mode, calls).
        nat (max_iteration - itercnt))") auto

declare create_loop.simps [simp del]

text \<open>\<open>create_qr_code\<close>: the loop started with \<open>itercnt = 0\<close>.\<close>

definition create_qr_code ::
  "'c create \<Rightarrow> 'c png \<Rightarrow> int \<Rightarrow> string \<Rightarrow> bool \<Rightarrow> int \<Rightarrow> 'c run" where
  "create_qr_code create png version mode adjust max_iteration =
     create_loop create png adjust max_iteration 0 version mode 0"

section \<open>CategoricalEncoder\<close>

text \<open>
  \<open>category_dict\<close> is an \<open>OrderedDict\<close> from category names to lists of values; the
  class only ever iterates over its \<open>values()\<close>, in insertion order.
\<close>

type_synonym category_dict = "(string \<times> string list) list"

definition values_of :: "category_dict \<Rightarrow> string list list" where
  "values_of category_dict = map snd category_dict"

text \<open>\<open>v.index(l)\<close>: the first position of \<open>l\<close> in \<open>v\<close>, \<open>ValueError\<close> if there is none.\<close>

definition py_index :: "string list \<Rightarrow> string \<Rightarrow> error + int" where
  "py_index v l =
     (if l \<in> set v then Inr (int (length (takeWhile (\<lambda>y. y \<noteq> l) v))) else Inl ValueError)"

text \<open>\<open>v[i]\<close>: a negative index counts from the end; \<open>IndexError\<close> outside \<open>[-len, len)\<close>.\<close>

definition py_getitem :: "string list \<Rightarrow> int \<Rightarrow> error + string" where
  "py_getitem v i =
     (let n = int (length v); j = (if i < 0 then n + i else i)
      in if 0 \<le> j \<and> j < n then Inr (v ! nat j) else Inl IndexError)"

text \<open>A list comprehension whose body may raise: the first exception ends it.\<close>

fun comprehension :: "('a \<Rightarrow> error + 'b) \<Rightarrow> 'a list \<Rightarrow> error + 'b list" where
  "comprehension f [] = Inr []"
| "comprehension f (x # xs) =
     (case f x of
        Inl e \<Rightarrow> Inl e
      | Inr y \<Rightarrow> (case comprehension f xs of Inl e \<Rightarrow> Inl e | Inr ys \<Rightarrow> Inr (y # ys)))"

text \<open>\<open>CategoricalEncoder.encode\<close>; \<open>zip\<close> stops at the shorter of its arguments.\<close>

definition CategoricalEncoder_encode ::
  "category_dict \<Rightarrow> string list \<Rightarrow> error + (int list \<times> int list)" where
  "CategoricalEncoder_encode category_dict category_list =
     (case comprehension (\<lambda>(l, v). py_index v l) (zip category_list (values_of category_dict)) of
        Inl e \<Rightarrow> Inl e
      | Inr lst \<Rightarrow> Inr (lst, map (\<lambda>v. int (length v)) (values_of category_dict)))"

text \<open>\<open>CategoricalEncoder.decode\<close>\<close>

definition CategoricalEncoder_decode :: "category_dict \<Rightarrow> int list \<Rightarrow> error + string list" where
  "CategoricalEncoder_decode category_dict category_indices =
     comprehension (\<lambda>(i, v). py_getitem v i) (zip category_indices (values_of category_dict))"

section \<open>Properties of NaryEncoder\<close>

lemma digit_sum_Nil: "digit_sum m [] = 0"
  by (simp add: digit_sum_def)

lemma digit_sum_snoc: "digit_sum m (ys @ [y]) = digit_sum m ys + y * m ^ length ys"
  by (simp add: digit_sum_def nth_append)

lemma py_max_Max: "py_max xs = Inr (Max (set xs))" if "xs \<noteq> []"
proof (cases xs)
  case Nil
  with that show ?thesis by simp
next
  case (Cons a ys)
  then show ?thesis using Max.set_eq_fold [of a ys] by (simp add: py_max_def)
qed

lemma enumerate_sum_snoc:
  "sum_list (map (\<lambda>(i, x). m ^ i * x) (enumerate n (ys @ [y])))
     = sum_list (map (\<lambda>(i, x). m ^ i * x) (enumerate n ys)) + m ^ (n + length ys) * (y::int)"
  by (simp add: enumerate_append_eq)

lemma enumerate_sum: "sum_list (map (\<lambda>(i, x). m ^ i * x) (enumerate 0 l)) = digit_sum m l"
proof (induction l rule: rev_induct)
  case Nil
  show ?case by (simp add: digit_sum_Nil)
next
  case (snoc y ys)
  show ?case
    unfolding enumerate_sum_snoc digit_sum_snoc snoc.IH by (simp add: mult.commute)
qed

lemma digit_sum_bounds:
  assumes "1 \<le> m" and "\<forall>x\<in>set v. 0 \<le> x \<and> x < m"
  shows "0 \<le> digit_sum m v \<and> digit_sum m v < m ^ length v"
  using assms(2)
proof (induction v rule: rev_induct)
  case Nil
  show ?case by (simp add: digit_sum_Nil)
next
  case (snoc y ys)
  let ?p = "m ^ length ys"
  from snoc have ih: "0 \<le> digit_sum m ys" "digit_sum m ys < ?p" by simp_all
  from snoc.prems have y: "0 \<le> y" "y + 1 \<le> m" by simp_all
  from assms(1) have p: "0 < ?p" by simp
  have "0 \<le> y * ?p" using y(1) p by simp
  moreover have "(y + 1) * ?p \<le> m * ?p" using y(2) p by (simp add: mult_right_mono)
  ultimately show ?case using ih by (simp add: digit_sum_snoc algebra_simps)
qed

lemma decode_loop_Suc:
  "m \<noteq> 0 \<Longrightarrow> decode_loop m (rev [0..<Suc n]) r dec
     = decode_loop m (rev [0..<n]) (r mod m ^ n) (dec @ [r div m ^ n])"
  by (simp add: Let_def)

lemma decode_loop_digit_sum:
  assumes "1 \<le> m" and "\<forall>x\<in>set v. 0 \<le> x \<and> x < m"
  shows "decode_loop m (rev [0..<length v]) (digit_sum m v) dec = Inr (dec @ rev v)"
  using assms(2)
proof (induction v arbitrary: dec rule: rev_induct)
  case Nil
  show ?case by simp
next
  case (snoc y ys)
  let ?p = "m ^ length ys"
  from snoc.prems have ys: "\<forall>x\<in>set ys. 0 \<le> x \<and> x < m" by simp
  from digit_sum_bounds [OF assms(1) ys]
  have b: "0 \<le> digit_sum m ys" "digit_sum m ys < ?p" by simp_all
  from assms(1) have m0: "m \<noteq> 0" by simp
  have d: "(digit_sum m ys + y * ?p) div ?p = y" using b m0 by simp
  have r: "digit_sum m ys mod ?p = digit_sum m ys" using b by simp
  have "decode_loop m (rev [0..<length (ys @ [y])]) (digit_sum m (ys @ [y])) dec
      = decode_loop m (rev [0..<length ys]) (digit_sum m ys) (dec @ [y])"
    using decode_loop_Suc [OF m0, of "length ys"] by (simp add: digit_sum_snoc d r del: upt_Suc)
  also have "\<dots> = Inr ((dec @ [y]) @ rev ys)" by (rule snoc.IH [OF ys])
  finally show ?case by simp
qed

lemma decode_loop_total:
  assumes "1 \<le> m"
  shows "0 \<le> r \<Longrightarrow> r < m ^ n \<Longrightarrow>
    \<exists>ds. decode_loop m (rev [0..<n]) r dec = Inr (dec @ rev ds) \<and> length ds = n
       \<and> (\<forall>x\<in>set ds. 0 \<le> x \<and> x < m) \<and> digit_sum m ds = r"
proof (induction n arbitrary: r dec)
  case 0
  then show ?case by (simp add: digit_sum_Nil)
next
  case (Suc n)
  let ?p = "m ^ n"
  from assms have p: "0 < ?p" and m0: "m \<noteq> 0" by simp_all
  have r1: "0 \<le> r mod ?p" "r mod ?p < ?p" using p by simp_all
  from Suc.IH [OF r1, of "dec @ [r div ?p]"] obtain ds where
    ds: "decode_loop m (rev [0..<n]) (r mod ?p) (dec @ [r div ?p]) = Inr ((dec @ [r div ?p]) @ rev ds)"
      "length ds = n" "\<forall>x\<in>set ds. 0 \<le> x \<and> x < m" "digit_sum m ds = r mod ?p"
    by blast
  have t0: "0 \<le> r div ?p" using Suc.prems(1) p by (simp add: pos_imp_zdiv_nonneg_iff)
  have "r = ?p * (r div ?p) + r mod ?p" by simp
  with r1(1) have "?p * (r div ?p) \<le> r" by linarith
  also have "r < ?p * m" using Suc.prems(2) by (simp add: mult.commute)
  finally have t1: "r div ?p < m" using p by (simp add: mult_less_cancel_left_pos)
  have "decode_loop m (rev [0..<Suc n]) r dec = Inr (dec @ rev (ds @ [r div ?p]))"
    using decode_loop_Suc [OF m0, of n r dec] ds(1) by (simp del: upt_Suc decode_loop.simps)
  moreover have "digit_sum m (ds @ [r div ?p]) = r"
    by (simp add: digit_sum_snoc ds(2,4) mod_div_mult_eq)
  ultimately show ?case using ds(2,3) t0 t1
    by (intro exI [of _ "ds @ [r div ?p]"]) simp
qed


lemma NaryEncoder_encode_eq:
  assumes "l_master \<noteq> []" and "open_w (json_path self) = None"
  shows "NaryEncoder_encode self open_w fs l l_master =
           (Inr (digit_sum (Max (set l_master)) l),
            self\<lparr>ln := int (length l), mx := Max (set l_master)\<rparr>,
            fs(json_path self \<mapsto> [int (length l), Max (set l_master)]))"
  using py_max_Max [OF assms(1)] assms(2)
  by (simp add: NaryEncoder_encode_def Let_def JsonFile_dump_def enumerate_sum)

lemma NaryEncoder_encode_unwritable:
  assumes "l_master \<noteq> []" and "open_w (json_path self) = Some e"
  shows "NaryEncoder_encode self open_w fs l l_master =
           (Inl e, self\<lparr>ln := int (length l), mx := Max (set l_master)\<rparr>, fs)"
  using py_max_Max [OF assms(1)] assms(2)
  by (simp add: NaryEncoder_encode_def Let_def JsonFile_dump_def)

text \<open>
  Claim C4.  Whenever the cardinality list is not empty and the parameter file can be
  written, \<open>NaryEncoder.encode\<close> returns the sum over \<open>i\<close> of \<open>l[i] * radix^i\<close>,
  where the radix is the maximum of the cardinality list given to this call; that radix
  and the length of \<open>l\<close> are what the object and the file hold afterwards, whatever
  they held before.  In particular the indices \<open>[1, 0]\<close> with the cardinalities
  \<open>[3, 2]\<close> encode to 1.
\<close>

theorem encode_formula:
  assumes "l_master \<noteq> []" and "open_w (json_path self) = None"
  shows "NaryEncoder_encode self open_w fs l l_master =
           (Inr (\<Sum>i<length l. l ! i * Max (set l_master) ^ i),
            self\<lparr>ln := int (length l), mx := Max (set l_master)\<rparr>,
            fs(json_path self \<mapsto> [int (length l), Max (set l_master)]))
         \<and> fst (NaryEncoder_encode self open_w fs [1, 0] [3, 2]) = Inr 1"
proof
  show "NaryEncoder_encode self open_w fs l l_master =
           (Inr (\<Sum>i<length l. l ! i * Max (set l_master) ^ i),
            self\<lparr>ln := int (length l), mx := Max (set l_master)\<rparr>,
            fs(json_path self \<mapsto> [int (length l), Max (set l_master)]))"
    using NaryEncoder_encode_eq [where open_w = open_w and self = self and fs = fs and l = l, OF assms]
    by (simp add: digit_sum_def)
  show "fst (NaryEncoder_encode self open_w fs [1, 0] [3, 2]) = Inr 1"
    using assms(2)
    by (simp add: NaryEncoder_encode_def Let_def py_max_def JsonFile_dump_def)
qed

theorem encode_formula_witness:
  "[3, 2] \<noteq> ([] :: int list)
   \<and> (\<lambda>path. None :: error option) (json_path (NaryEncoder_init ''params.json'')) = None
   \<and> NaryEncoder_encode (NaryEncoder_init ''params.json'') (\<lambda>path. None) Map.empty [1, 0] [3, 2] =
     (Inr 1, \<lparr>json_path = ''params.json'', ln = 2, mx = 3\<rparr>, [''params.json'' \<mapsto> [2, 3]])"
  using encode_formula [where l_master = "[3, 2]" and open_w = "\<lambda>path. None"
      and self = "NaryEncoder_init ''params.json''" and fs = Map.empty and l = "[1, 0]"]
  by (simp add: NaryEncoder_init_def lessThan_Suc numeral_2_eq_2)

text \<open>
  Claim C5.  On a fresh codec, when nothing was ever written to the configured path,
  \<open>NaryEncoder.decode\<close> raises (the \<open>FileNotFoundError\<close> of \<open>open\<close>, the
  specification's \<open>MissingParameters\<close>) and returns no vector.
\<close>

theorem decode_without_parameters:
  assumes "fs path = None"
  shows "NaryEncoder_decode (NaryEncoder_init path) fs enc = (Inl FileNotFoundError, NaryEncoder_init path)"
  using assms by (simp add: NaryEncoder_decode_def NaryEncoder_init_def JsonFile_load_def)

theorem decode_without_parameters_witness:
  "(Map.empty :: files) ''params.json'' = None \<and>
   NaryEncoder_decode (NaryEncoder_init ''params.json'') Map.empty 1
     = (Inl FileNotFoundError, NaryEncoder_init ''params.json'')"
  using decode_without_parameters [of Map.empty "''params.json''" 1] by simp

text \<open>
  Claim C8.  Two calls of \<open>NaryEncoder.encode\<close> with the same index list and the same
  (non-empty) cardinality list, each able to write the parameter file, return the same
  integer and leave the same pair \<open>[length, radix]\<close> in the storage slot, whatever the
  two codecs and file systems held before the calls.
\<close>

theorem encode_deterministic:
  assumes "json_path self = json_path self'" and "l_master \<noteq> []"
    and "open_w (json_path self) = None" and "open_w' (json_path self') = None"
  shows "fst (NaryEncoder_encode self open_w fs l l_master)
           = fst (NaryEncoder_encode self' open_w' fs' l l_master)
       \<and> fst (NaryEncoder_encode self open_w fs l l_master)
           = Inr (\<Sum>i<length l. l ! i * Max (set l_master) ^ i)
       \<and> snd (snd (NaryEncoder_encode self open_w fs l l_master)) (json_path self)
           = snd (snd (NaryEncoder_encode self' open_w' fs' l l_master)) (json_path self)
       \<and> snd (snd (NaryEncoder_encode self open_w fs l l_master)) (json_path self)
           = Some [int (length l), Max (set l_master)]"
  using assms(1)
    NaryEncoder_encode_eq [where open_w = open_w and self = self and fs = fs and l = l, OF assms(2,3)]
    NaryEncoder_encode_eq [where open_w = open_w' and self = self' and fs = fs' and l = l, OF assms(2,4)]
  by (simp add: digit_sum_def)

theorem encode_deterministic_witness:
  "json_path (NaryEncoder_init ''params.json'')
     = json_path \<lparr>json_path = ''params.json'', ln = 7, mx = 12\<rparr>
   \<and> [3, 2] \<noteq> ([] :: int list)
   \<and> (\<lambda>path. None :: error option) (json_path (NaryEncoder_init ''params.json'')) = None
   \<and> fst (NaryEncoder_encode (NaryEncoder_init ''params.json'') (\<lambda>path. None) Map.empty
            [1, 0] [3, 2])
       = fst (NaryEncoder_encode \<lparr>json_path = ''params.json'', ln = 7, mx = 12\<rparr>
               (\<lambda>path. None) [''params.json'' \<mapsto> [7, 12]] [1, 0] [3, 2])
   \<and> snd (snd (NaryEncoder_encode \<lparr>json_path = ''params.json'', ln = 7, mx = 12\<rparr>
               (\<lambda>path. None) [''params.json'' \<mapsto> [7, 12]] [1, 0] [3, 2])) ''params.json''
       = Some [2, 3]"
  using encode_deterministic [where self = "NaryEncoder_init ''params.json''"
      and self' = "\<lparr>json_path = ''params.json'', ln = 7, mx = 12\<rparr>" and l_master = "[3, 2]"
      and open_w = "\<lambda>path. None" and open_w' = "\<lambda>path. None"
      and fs = Map.empty and l = "[1, 0]" and fs' = "[''params.json'' \<mapsto> [7, 12]]"]
  by (auto simp add: NaryEncoder_init_def)

text \<open>
  Claim C9.  With the in-memory parameters set to a length of at least 1 and a radix of
  at least 1, \<open>NaryEncoder.decode\<close> of any \<open>e\<close> with \<open>0 \<le> e < radix^length\<close>
  returns a vector of that length whose entries lie in \<open>[0, radix)\<close> and whose
  positional sum is \<open>e\<close>.
\<close>

theorem decode_digits:
  assumes "1 \<le> ln self" and "1 \<le> mx self" and "0 \<le> e" and "e < mx self ^ nat (ln self)"
  shows "\<exists>d. NaryEncoder_decode self fs e = (Inr d, self) \<and> int (length d) = ln self
           \<and> (\<forall>i<length d. 0 \<le> d ! i \<and> d ! i < mx self)
           \<and> (\<Sum>i<length d. d ! i * mx self ^ i) = e"
proof -
  from decode_loop_total [OF assms(2,3,4), of "[]"] obtain ds where
    ds: "decode_loop (mx self) (rev [0..<nat (ln self)]) e [] = Inr ([] @ rev ds)"
      "length ds = nat (ln self)" "\<forall>x\<in>set ds. 0 \<le> x \<and> x < mx self"
      "digit_sum (mx self) ds = e"
    by blast
  from assms(1) have "ln self \<noteq> 0" by simp
  then have "NaryEncoder_decode self fs e = (Inr ds, self)"
    using ds(1) by (simp add: NaryEncoder_decode_def)
  moreover have "int (length ds) = ln self" using ds(2) assms(1) by simp
  moreover have "\<forall>i<length ds. 0 \<le> ds ! i \<and> ds ! i < mx self" using ds(3) by simp
  moreover have "(\<Sum>i<length ds. ds ! i * mx self ^ i) = e"
    using ds(4) by (simp add: digit_sum_def)
  ultimately show ?thesis by blast
qed

theorem decode_digits_witness:
  "(1::int) \<le> 2 \<and> (1::int) \<le> 3 \<and> (0::int) \<le> 7 \<and> (7::int) < 3 ^ nat 2
   \<and> NaryEncoder_decode \<lparr>json_path = ''params.json'', ln = 2, mx = 3\<rparr> Map.empty 7
       = (Inr [1, 2], \<lparr>json_path = ''params.json'', ln = 2, mx = 3\<rparr>)
   \<and> (\<Sum>i<length [1, 2 :: int]. [1, 2] ! i * (3::int) ^ i) = 7"
proof -
  let ?self = "\<lparr>json_path = ''params.json'', ln = 2, mx = 3\<rparr>"
  have h: "1 \<le> ln ?self" "1 \<le> mx ?self" "(0::int) \<le> 7" "7 < mx ?self ^ nat (ln ?self)"
    by simp_all
  from decode_digits [OF h, of Map.empty] obtain d where
    d: "NaryEncoder_decode ?self Map.empty 7 = (Inr d, ?self)"
       "(\<Sum>i<length d. d ! i * mx ?self ^ i) = 7"
    by blast
  have "NaryEncoder_decode ?self Map.empty 7 = (Inr [1, 2], ?self)"
    by (simp add: NaryEncoder_decode_def numeral_2_eq_2 Let_def)
  with d have "d = [1, 2]" by simp
  with d show ?thesis by simp
qed

text \<open>
  Claim C1.  For a non-empty index vector \<open>v\<close> and a cardinality vector \<open>c\<close> of the
  same length with \<open>0 \<le> v[i] < c[i]\<close>, encoding succeeds when the parameter file can
  be written, and decoding the result gives \<open>v\<close> back: on the same object, and on a
  fresh object of the same path as long as the file still holds the pair this encode
  wrote.
\<close>

theorem round_trip:
  assumes "v \<noteq> []" and "length v = length c" and "\<forall>i<length v. 0 \<le> v ! i \<and> v ! i < c ! i"
    and "open_w (json_path self) = None"
  shows "\<exists>e self1 fs1. NaryEncoder_encode self open_w fs v c = (Inr e, self1, fs1)
           \<and> fst (NaryEncoder_decode self1 fs1 e) = Inr v
           \<and> (\<forall>fs2. fs2 (json_path self) = fs1 (json_path self) \<longrightarrow>
                fst (NaryEncoder_decode (NaryEncoder_init (json_path self)) fs2 e) = Inr v)"
proof -
  let ?m = "Max (set c)"
  let ?e = "digit_sum ?m v"
  let ?self1 = "self\<lparr>ln := int (length v), mx := ?m\<rparr>"
  let ?fs1 = "fs(json_path self \<mapsto> [int (length v), ?m])"
  from assms(1,2) have c: "c \<noteq> []" by auto
  have dig: "\<forall>x\<in>set v. 0 \<le> x \<and> x < ?m"
  proof
    fix x assume "x \<in> set v"
    then obtain i where i: "i < length v" "x = v ! i" by (auto simp: in_set_conv_nth)
    with assms(3) have "0 \<le> x" "x < c ! i" by simp_all
    moreover have "c ! i \<le> ?m" using i(1) assms(2) by simp
    ultimately show "0 \<le> x \<and> x < ?m" by simp
  qed
  from assms(1) dig have m1: "1 \<le> ?m" by (cases v) auto
  have enc: "NaryEncoder_encode self open_w fs v c = (Inr ?e, ?self1, ?fs1)"
    by (rule NaryEncoder_encode_eq [where open_w = open_w and self = self, OF c assms(4)])
  have loop: "decode_loop ?m (rev [0..<length v]) ?e [] = Inr (rev v)"
    using decode_loop_digit_sum [OF m1 dig, of "[]"] by simp
  have same: "fst (NaryEncoder_decode ?self1 ?fs1 ?e) = Inr v"
    using assms(1) loop by (simp add: NaryEncoder_decode_def)
  have fresh: "fst (NaryEncoder_decode (NaryEncoder_init (json_path self)) fs2 ?e) = Inr v"
    if "fs2 (json_path self) = ?fs1 (json_path self)" for fs2
    using that loop by (simp add: NaryEncoder_decode_def NaryEncoder_init_def JsonFile_load_def)
  from enc same fresh show ?thesis by simp
qed

theorem round_trip_witness:
  "[1, 0] \<noteq> ([] :: int list) \<and> length [1, 0 :: int] = length [3, 2 :: int]
   \<and> 0 \<le> [1, 0 :: int] ! 0 \<and> [1, 0 :: int] ! 0 < [3, 2] ! 0
   \<and> 0 \<le> [1, 0 :: int] ! 1 \<and> [1, 0 :: int] ! 1 < [3, 2] ! 1
   \<and> (\<lambda>path. None :: error option) (json_path (NaryEncoder_init ''params.json'')) = None
   \<and> NaryEncoder_encode (NaryEncoder_init ''params.json'') (\<lambda>path. None) Map.empty
        [1, 0] [3, 2]
       = (Inr 1, \<lparr>json_path = ''params.json'', ln = 2, mx = 3\<rparr>,
          [''params.json'' \<mapsto> [2, 3]])
   \<and> fst (NaryEncoder_decode (NaryEncoder_init ''params.json'')
            [''params.json'' \<mapsto> [2, 3]] 1) = Inr [1, 0]"
proof -
  let ?self = "NaryEncoder_init ''params.json''"
  have h: "[1, 0] \<noteq> ([] :: int list)" "length [1, 0 :: int] = length [3, 2 :: int]"
    "\<forall>i<length [1, 0 :: int]. 0 \<le> [1, 0 :: int] ! i \<and> [1, 0] ! i < [3, 2 :: int] ! i"
    by (simp_all add: less_Suc_eq numeral_2_eq_2)
  have w: "(\<lambda>path. None :: error option) (json_path ?self) = None" by simp
  have enc: "NaryEncoder_encode ?self (\<lambda>path. None) Map.empty [1, 0] [3, 2]
       = (Inr 1, \<lparr>json_path = ''params.json'', ln = 2, mx = 3\<rparr>,
          [''params.json'' \<mapsto> [2, 3]])"
    by (simp add: NaryEncoder_encode_def NaryEncoder_init_def py_max_def JsonFile_dump_def Let_def)
  from round_trip [where open_w = "\<lambda>path. None" and self = ?self and fs = Map.empty, OF h w]
  obtain e self1 fs1 where
    r: "NaryEncoder_encode ?self (\<lambda>path. None) Map.empty [1, 0] [3, 2] = (Inr e, self1, fs1)"
       "\<forall>fs2. fs2 (json_path ?self) = fs1 (json_path ?self) \<longrightarrow>
          fst (NaryEncoder_decode (NaryEncoder_init (json_path ?self)) fs2 e) = Inr [1, 0]"
    by blast
  from r(1) enc have "e = 1" "fs1 = [''params.json'' \<mapsto> [2, 3]]" by simp_all
  with r(2) have "fst (NaryEncoder_decode (NaryEncoder_init (json_path ?self))
      [''params.json'' \<mapsto> [2, 3]] 1) = Inr [1, 0]" by blast
  then have "fst (NaryEncoder_decode ?self [''params.json'' \<mapsto> [2, 3]] 1) = Inr [1, 0]"
    by (simp add: NaryEncoder_init_def)
  with h(1,2) enc show ?thesis by simp
qed

section \<open>Properties of create_qr_code\<close>

lemma create_loop_no_adjust:
  "create_loop create png False M i v m c =
     (if i + 1 \<ge> M then
        \<lparr>result = Inl MaxIterationExceeded, attempts = c, final_mode = m, final_version = v\<rparr>
      else case create c v m of
        Inr code \<Rightarrow> (case png code of
            None \<Rightarrow> \<lparr>result = Inr code, attempts = c + 1, final_mode = m, final_version = v\<rparr>
          | Some ex \<Rightarrow> \<lparr>result = Inl (RenderError ex), attempts = c + 1, final_mode = m, final_version = v\<rparr>)
      | Inl ex \<Rightarrow> \<lparr>result = Inl (EncoderError ex), attempts = c + 1, final_mode = m, final_version = v\<rparr>)"
  by (subst create_loop.simps) (simp split: sum.splits option.splits)








text \<open>
  Claim C6.  With adaptation enabled and a budget of at least 3, a payload that the
  encoder rejects in mode \<open>binary\<close> with a mode-mismatch message naming \<open>numeric\<close>,
  and accepts in mode \<open>numeric\<close>, is encoded at the second attempt (one retry), with
  the mode set to \<open>numeric\<close> and the version unchanged.
\<close>

theorem mode_convergence:
  assumes "3 \<le> max_iteration"
    and "create 0 version ''binary'' = Inl msg"
    and "match_mode ''binary'' msg = Some ''numeric''"
    and "create 1 version ''numeric'' = Inr code"
    and "png code = None"
  shows "create_qr_code create png version ''binary'' True max_iteration
           = \<lparr>result = Inr code, attempts = 2,
              final_mode = ''numeric'', final_version = version\<rparr>"
proof -
  have "create_loop create png True max_iteration 0 version ''binary'' 0
      = create_loop create png True max_iteration 1 version ''numeric'' 1"
    using assms(1,2,3) by (subst create_loop.simps) simp
  also have "\<dots> = \<lparr>result = Inr code, attempts = 2,
              final_mode = ''numeric'', final_version = version\<rparr>"
    using assms(1,4,5) by (subst create_loop.simps) simp
  finally show ?thesis by (simp add: create_qr_code_def)
qed

theorem mode_convergence_witness:
  "(3::int) \<le> 10
   \<and> (\<lambda>k v m. if m = ''numeric'' then Inr () else
         Inl ''The content provided cannot be encoded with the mode binary, it can only be encoded as numeric.'')
        (0::nat) (1::int) ''binary''
       = Inl ''The content provided cannot be encoded with the mode binary, it can only be encoded as numeric.''
   \<and> match_mode ''binary''
        ''The content provided cannot be encoded with the mode binary, it can only be encoded as numeric.''
       = Some ''numeric''
   \<and> create_qr_code
        (\<lambda>k v m. if m = ''numeric'' then Inr () else
           Inl ''The content provided cannot be encoded with the mode binary, it can only be encoded as numeric.'')
        (\<lambda>code. None) 1 ''binary'' True 10
       = \<lparr>result = Inr (), attempts = 2, final_mode = ''numeric'', final_version = 1\<rparr>"
proof -
  let ?msg = "''The content provided cannot be encoded with the mode binary, it can only be encoded as numeric.''"
  let ?create = "\<lambda>(k::nat) (v::int) m. if m = ''numeric'' then Inr () else Inl ?msg"
  have m: "match_mode ''binary'' ?msg = Some ''numeric''"
    by (simp add: match_mode_def match_group_def is_lower_def)
  have "create_qr_code ?create (\<lambda>code. None) 1 ''binary'' True 10
       = \<lparr>result = Inr (), attempts = 2, final_mode = ''numeric'', final_version = 1\<rparr>"
    by (rule mode_convergence [where msg = ?msg]) (simp_all add: m)
  with m show ?thesis by simp
qed

text \<open>
  Claim C7.  With adaptation disabled the encoder is called at most once, and a
  rejection at that call, whatever its message, is re-raised as it is.
\<close>

theorem no_adjust_no_retry:
  "attempts (create_qr_code create png version mode False max_iteration) \<le> 1
   \<and> (1 < max_iteration \<longrightarrow> create 0 version mode = Inl ex \<longrightarrow>
        create_qr_code create png version mode False max_iteration
          = \<lparr>result = Inl (EncoderError ex), attempts = 1,
             final_mode = mode, final_version = version\<rparr>)"
  by (simp add: create_qr_code_def create_loop_no_adjust split: sum.splits option.splits)

theorem no_adjust_no_retry_witness:
  "(1::int) < 10
   \<and> create_qr_code
        (\<lambda>k v m. Inl ''The content provided cannot be encoded with the mode binary, it can only be encoded as numeric.''
           :: string + unit)
        (\<lambda>code. None) 1 ''binary'' False 10
       = \<lparr>result = Inl (EncoderError
            ''The content provided cannot be encoded with the mode binary, it can only be encoded as numeric.''),
          attempts = 1, final_mode = ''binary'', final_version = 1\<rparr>"
  using no_adjust_no_retry [of
      "\<lambda>k v m. Inl ''The content provided cannot be encoded with the mode binary, it can only be encoded as numeric.'' :: string + unit"
      "\<lambda>code. None" 1 "''binary''" 10
      "''The content provided cannot be encoded with the mode binary, it can only be encoded as numeric.''"]
  by simp

section \<open>Properties of CategoricalEncoder\<close>

lemma comprehension_cases:
  assumes "\<forall>x\<in>set xs. f x = Inl e \<or> f x = Inr (g x)"
  shows "comprehension f xs = (if \<exists>x\<in>set xs. f x = Inl e then Inl e else Inr (map g xs))"
  using assms by (induction xs) auto

lemma zip_as_map:
  "zip xs ys = map (\<lambda>k. (xs ! k, ys ! k)) [0..<min (length xs) (length ys)]"
  by (rule nth_equalityI) simp_all

lemma ex_set_zip:
  "(\<exists>x\<in>set (zip xs ys). P x) = (\<exists>k<min (length xs) (length ys). P (xs ! k, ys ! k))"
  by (auto simp: set_zip)

lemma py_getitem_cases:
  "py_getitem v i = Inl IndexError
   \<or> py_getitem v i = Inr (v ! nat (if i < 0 then int (length v) + i else i))"
  by (simp add: py_getitem_def Let_def)

lemma py_getitem_IndexError:
  "(py_getitem v i = Inl IndexError) = (i < - int (length v) \<or> int (length v) \<le> i)"
  by (auto simp: py_getitem_def Let_def)

lemma py_index_cases:
  "py_index v l = Inl ValueError
   \<or> py_index v l = Inr (int (length (takeWhile (\<lambda>y. y \<noteq> l) v)))"
  by (simp add: py_index_def)

lemma py_index_ValueError: "(py_index v l = Inl ValueError) = (l \<notin> set v)"
  by (simp add: py_index_def)

lemma CategoricalEncoder_decode_eq:
  "CategoricalEncoder_decode d idx =
     (if \<exists>k<min (length idx) (length d).
           idx ! k < - int (length (snd (d ! k))) \<or> int (length (snd (d ! k))) \<le> idx ! k
      then Inl IndexError
      else Inr (map (\<lambda>k. snd (d ! k) ! nat (if idx ! k < 0 then int (length (snd (d ! k))) + idx ! k
                                                else idx ! k))
                  [0..<min (length idx) (length d)]))"
proof -
  let ?f = "\<lambda>(i, v). py_getitem v i"
  let ?g = "\<lambda>(i, v :: string list). v ! nat (if i < 0 then int (length v) + i else i)"
  let ?zs = "zip idx (values_of d)"
  have c: "\<forall>x\<in>set ?zs. ?f x = Inl IndexError \<or> ?f x = Inr (?g x)"
    using py_getitem_cases by auto
  have e: "(\<exists>x\<in>set ?zs. ?f x = Inl IndexError)
      = (\<exists>k<min (length idx) (length d).
           idx ! k < - int (length (snd (d ! k))) \<or> int (length (snd (d ! k))) \<le> idx ! k)"
    unfolding ex_set_zip by (auto simp: values_of_def py_getitem_IndexError)
  have m: "map ?g ?zs = map (\<lambda>k. snd (d ! k) ! nat (if idx ! k < 0 then int (length (snd (d ! k))) + idx ! k
                                                else idx ! k))
                  [0..<min (length idx) (length d)]"
    by (subst zip_as_map) (simp add: values_of_def)
  show ?thesis
    unfolding CategoricalEncoder_decode_def comprehension_cases [OF c] e m ..
qed

text \<open>
  Claim C3, as stated, fails: the index \<open>-1\<close> is outside \<open>[0, len)\<close>, and
  \<open>decode\<close> does not raise but returns the last value of the category, as Python's
  subscript does for a negative index.
\<close>

theorem decode_negative_index:
  "(-1::int) \<notin> {0..<int (length [''coupe'', ''sedan''])}
   \<and> CategoricalEncoder_decode [(''body_style'', [''coupe'', ''sedan''])] [-1] = Inr [''sedan'']"
  by (simp add: CategoricalEncoder_decode_def values_of_def py_getitem_def)

text \<open>
  Claim C3, as amended.  \<open>CategoricalEncoder.decode\<close> raises \<open>IndexError\<close> if and
  only if some index that \<open>zip\<close> pairs with a category lies outside
  \<open>[-len, len)\<close> for that category's list.  When every paired index lies in
  \<open>[-len, len)\<close> it returns, per category, the value at the given index, where an
  index \<open>i\<close> in \<open>[-len, 0)\<close> selects the value at position \<open>len + i\<close> (counted from
  the end); in particular, when every paired index lies in \<open>[0, len)\<close> it returns the
  value at that position.
\<close>

theorem decode_index_error:
  "(CategoricalEncoder_decode d idx = Inl IndexError) =
     (\<exists>k<min (length idx) (length d).
        idx ! k < - int (length (snd (d ! k))) \<or> int (length (snd (d ! k))) \<le> idx ! k)
   \<and> ((\<forall>k<min (length idx) (length d).
          - int (length (snd (d ! k))) \<le> idx ! k \<and> idx ! k < int (length (snd (d ! k)))) \<longrightarrow>
        CategoricalEncoder_decode d idx =
          Inr (map (\<lambda>k. if idx ! k < 0
                         then snd (d ! k) ! nat (int (length (snd (d ! k))) + idx ! k)
                         else snd (d ! k) ! nat (idx ! k))
                 [0..<min (length idx) (length d)]))
   \<and> ((\<forall>k<min (length idx) (length d). 0 \<le> idx ! k \<and> idx ! k < int (length (snd (d ! k)))) \<longrightarrow>
        CategoricalEncoder_decode d idx =
          Inr (map (\<lambda>k. snd (d ! k) ! nat (idx ! k)) [0..<min (length idx) (length d)]))"
proof (intro conjI impI)
  show "(CategoricalEncoder_decode d idx = Inl IndexError) =
     (\<exists>k<min (length idx) (length d).
        idx ! k < - int (length (snd (d ! k))) \<or> int (length (snd (d ! k))) \<le> idx ! k)"
    by (simp add: CategoricalEncoder_decode_eq)
next
  assume a: "\<forall>k<min (length idx) (length d).
          - int (length (snd (d ! k))) \<le> idx ! k \<and> idx ! k < int (length (snd (d ! k)))"
  then have "\<not> (\<exists>k<min (length idx) (length d).
        idx ! k < - int (length (snd (d ! k))) \<or> int (length (snd (d ! k))) \<le> idx ! k)"
    by fastforce
  then show "CategoricalEncoder_decode d idx =
          Inr (map (\<lambda>k. if idx ! k < 0
                         then snd (d ! k) ! nat (int (length (snd (d ! k))) + idx ! k)
                         else snd (d ! k) ! nat (idx ! k))
                 [0..<min (length idx) (length d)])"
    by (auto simp: CategoricalEncoder_decode_eq)
next
  assume a: "\<forall>k<min (length idx) (length d). 0 \<le> idx ! k \<and> idx ! k < int (length (snd (d ! k)))"
  then have "\<not> (\<exists>k<min (length idx) (length d).
        idx ! k < - int (length (snd (d ! k))) \<or> int (length (snd (d ! k))) \<le> idx ! k)"
    by fastforce
  then show "CategoricalEncoder_decode d idx =
          Inr (map (\<lambda>k. snd (d ! k) ! nat (idx ! k)) [0..<min (length idx) (length d)])"
    using a by (auto simp: CategoricalEncoder_decode_eq)
qed

theorem decode_index_error_witness:
  "0 \<le> [1, 0 :: int] ! 0 \<and> [1, 0 :: int] ! 0 < int (length [''VW'', ''Toyota'', ''Renault''])
   \<and> 0 \<le> [1, 0 :: int] ! 1 \<and> [1, 0 :: int] ! 1 < int (length [''coupe'', ''sedan''])
   \<and> CategoricalEncoder_decode
        [(''manufacturer'', [''VW'', ''Toyota'', ''Renault'']),
         (''body_style'', [''coupe'', ''sedan''])] [1, 0]
       = Inr [''Toyota'', ''coupe'']
   \<and> - int (length [''VW'', ''Toyota'', ''Renault'']) \<le> [-3, 1 :: int] ! 0
   \<and> [-3, 1 :: int] ! 0 < int (length [''VW'', ''Toyota'', ''Renault''])
   \<and> - int (length [''coupe'', ''sedan'']) \<le> [-3, 1 :: int] ! 1
   \<and> [-3, 1 :: int] ! 1 < int (length [''coupe'', ''sedan''])
   \<and> CategoricalEncoder_decode
        [(''manufacturer'', [''VW'', ''Toyota'', ''Renault'']),
         (''body_style'', [''coupe'', ''sedan''])] [-3, 1]
       = Inr [''VW'', ''sedan'']
   \<and> CategoricalEncoder_decode
        [(''manufacturer'', [''VW'', ''Toyota'', ''Renault'']),
         (''body_style'', [''coupe'', ''sedan''])] [1, 2]
       = Inl IndexError
   \<and> CategoricalEncoder_decode
        [(''manufacturer'', [''VW'', ''Toyota'', ''Renault'']),
         (''body_style'', [''coupe'', ''sedan''])] [-4, 0]
       = Inl IndexError"
proof -
  let ?d = "[(''manufacturer'', [''VW'', ''Toyota'', ''Renault'']),
             (''body_style'', [''coupe'', ''sedan''])]"
  have h: "\<forall>k<min (length [1, 0 :: int]) (length ?d).
       0 \<le> [1, 0 :: int] ! k \<and> [1, 0 :: int] ! k < int (length (snd (?d ! k)))"
    by (simp add: less_Suc_eq numeral_2_eq_2)
  with decode_index_error [of ?d "[1, 0]"]
  have "CategoricalEncoder_decode ?d [1, 0]
      = Inr (map (\<lambda>k. snd (?d ! k) ! nat ([1, 0 :: int] ! k)) [0..<min (length [1, 0 :: int]) (length ?d)])"
    by blast
  then have ok: "CategoricalEncoder_decode ?d [1, 0] = Inr [''Toyota'', ''coupe'']"
    by (simp add: numeral_2_eq_2)
  have n: "\<forall>k<min (length [-3, 1 :: int]) (length ?d).
       - int (length (snd (?d ! k))) \<le> [-3, 1 :: int] ! k
       \<and> [-3, 1 :: int] ! k < int (length (snd (?d ! k)))"
    by (simp add: less_Suc_eq numeral_2_eq_2)
  with decode_index_error [of ?d "[-3, 1]"]
  have "CategoricalEncoder_decode ?d [-3, 1]
      = Inr (map (\<lambda>k. if [-3, 1 :: int] ! k < 0
                         then snd (?d ! k) ! nat (int (length (snd (?d ! k))) + [-3, 1 :: int] ! k)
                         else snd (?d ! k) ! nat ([-3, 1 :: int] ! k))
                 [0..<min (length [-3, 1 :: int]) (length ?d)])"
    by blast
  then have neg: "CategoricalEncoder_decode ?d [-3, 1] = Inr [''VW'', ''sedan'']"
    by (simp add: numeral_2_eq_2)
  have "\<exists>k<min (length [1, 2 :: int]) (length ?d).
      [1, 2 :: int] ! k < - int (length (snd (?d ! k))) \<or> int (length (snd (?d ! k))) \<le> [1, 2 :: int] ! k"
    by (rule exI [of _ 1]) simp
  with decode_index_error [of ?d "[1, 2]"]
  have bad: "CategoricalEncoder_decode ?d [1, 2] = Inl IndexError"
    by blast
  have "\<exists>k<min (length [-4, 0 :: int]) (length ?d).
      [-4, 0 :: int] ! k < - int (length (snd (?d ! k))) \<or> int (length (snd (?d ! k))) \<le> [-4, 0 :: int] ! k"
    by (rule exI [of _ 0]) simp
  with decode_index_error [of ?d "[-4, 0]"]
  have low: "CategoricalEncoder_decode ?d [-4, 0] = Inl IndexError"
    by blast
  from ok neg bad low show ?thesis by simp
qed

lemma CategoricalEncoder_encode_eq:
  "CategoricalEncoder_encode d sel =
     (if \<exists>k<min (length sel) (length d). sel ! k \<notin> set (snd (d ! k))
      then Inl ValueError
      else Inr (map (\<lambda>k. int (length (takeWhile (\<lambda>y. y \<noteq> sel ! k) (snd (d ! k)))))
                  [0..<min (length sel) (length d)],
                map (\<lambda>(name, v). int (length v)) d))"
proof -
  let ?f = "\<lambda>(l, v). py_index v l"
  let ?g = "\<lambda>(l, v :: string list). int (length (takeWhile (\<lambda>y. y \<noteq> l) v))"
  let ?zs = "zip sel (values_of d)"
  have c: "\<forall>x\<in>set ?zs. ?f x = Inl ValueError \<or> ?f x = Inr (?g x)"
    using py_index_cases by auto
  have e: "(\<exists>x\<in>set ?zs. ?f x = Inl ValueError)
      = (\<exists>k<min (length sel) (length d). sel ! k \<notin> set (snd (d ! k)))"
    unfolding ex_set_zip by (auto simp: values_of_def py_index_ValueError)
  have m: "map ?g ?zs = map (\<lambda>k. int (length (takeWhile (\<lambda>y. y \<noteq> sel ! k) (snd (d ! k)))))
                  [0..<min (length sel) (length d)]"
    by (subst zip_as_map) (simp add: values_of_def)
  have v: "map (\<lambda>v. int (length v)) (values_of d) = map (\<lambda>(name, v). int (length v)) d"
    by (simp add: values_of_def case_prod_unfold)
  show ?thesis
    unfolding CategoricalEncoder_encode_def comprehension_cases [OF c] e m v by auto
qed

text \<open>
  Claim C10, as stated, fails: a selection list shorter than the table makes
  \<open>CategoricalEncoder.encode\<close> fail when a supplied value is absent from its
  category's list (\<open>list.index\<close> raises \<open>ValueError\<close>).
\<close>

theorem encode_absent_value:
  "length [''suv'']
     < length [(''manufacturer'', [''VW'', ''Toyota'', ''Renault'']),
               (''body_style'', [''coupe'', ''sedan''])]
   \<and> CategoricalEncoder_encode
        [(''manufacturer'', [''VW'', ''Toyota'', ''Renault'']),
         (''body_style'', [''coupe'', ''sedan''])] [''suv'']
       = Inl ValueError"
  by (simp add: CategoricalEncoder_encode_def values_of_def py_index_def)

text \<open>
  Claim C10, as amended.  When the selection list has fewer entries than the table has
  categories and every supplied value occurs in the list of the category \<open>zip\<close> pairs
  it with, \<open>CategoricalEncoder.encode\<close> does not fail: it returns an index vector as
  long as the selection list, each entry the position of the selected value in its
  category.  When some supplied value is absent from its category's list it fails with
  \<open>ValueError\<close>.  Whatever the selection list, a cardinality vector that is returned
  has one entry per category of the table, the length of its list.
\<close>

theorem encode_short_selection:
  assumes "length sel < length d"
  shows "(if \<forall>k<length sel. sel ! k \<in> set (snd (d ! k))
          then \<exists>lst. CategoricalEncoder_encode d sel = Inr (lst, map (\<lambda>(name, v). int (length v)) d)
                 \<and> length lst = length sel
                 \<and> (\<forall>k<length sel. 0 \<le> lst ! k \<and> lst ! k < int (length (snd (d ! k)))
                       \<and> snd (d ! k) ! nat (lst ! k) = sel ! k)
          else CategoricalEncoder_encode d sel = Inl ValueError)
       \<and> (\<forall>sel' lst lst_master. CategoricalEncoder_encode d sel' = Inr (lst, lst_master) \<longrightarrow>
            lst_master = map (\<lambda>(name, v). int (length v)) d)"
proof -
  from assms have mn: "min (length sel) (length d) = length sel" by simp
  have idx: "length (takeWhile (\<lambda>y. y \<noteq> x) v) < length v
      \<and> v ! length (takeWhile (\<lambda>y. y \<noteq> x) v) = x" if "x \<in> set v" for x and v :: "string list"
  proof -
    have "length (takeWhile (\<lambda>y. y \<noteq> x) v) + length (dropWhile (\<lambda>y. y \<noteq> x) v) = length v"
      by (metis length_append takeWhile_dropWhile_id)
    moreover from that have "dropWhile (\<lambda>y. y \<noteq> x) v \<noteq> []"
      by auto
    ultimately have "length (takeWhile (\<lambda>y. y \<noteq> x) v) < length v"
      by (cases "dropWhile (\<lambda>y. y \<noteq> x) v") auto
    moreover from this have "\<not> (v ! length (takeWhile (\<lambda>y. y \<noteq> x) v) \<noteq> x)"
      by (rule nth_length_takeWhile)
    ultimately show ?thesis by simp
  qed
  show ?thesis
    by (auto simp: CategoricalEncoder_encode_eq mn idx split: if_splits)
qed


theorem encode_short_selection_witness:
  "length [''Toyota''] < length [(''manufacturer'', [''VW'', ''Toyota'', ''Renault'']),
                                 (''body_style'', [''coupe'', ''sedan''])]
   \<and> [''Toyota''] ! 0 \<in> set [''VW'', ''Toyota'', ''Renault'']
   \<and> CategoricalEncoder_encode
        [(''manufacturer'', [''VW'', ''Toyota'', ''Renault'']),
         (''body_style'', [''coupe'', ''sedan''])] [''Toyota'']
       = Inr ([1], [3, 2])"
proof -
  let ?d = "[(''manufacturer'', [''VW'', ''Toyota'', ''Renault'']),
             (''body_style'', [''coupe'', ''sedan''])]"
  have h1: "length [''Toyota''] < length ?d" by simp
  have h2: "\<forall>k<length [''Toyota'']. [''Toyota''] ! k \<in> set (snd (?d ! k))" by simp
  from encode_short_selection [OF h1] h2 obtain lst where
    l: "CategoricalEncoder_encode ?d [''Toyota''] = Inr (lst, map (\<lambda>(name, v). int (length v)) ?d)"
       "length lst = length [''Toyota'']"
       "\<forall>k<length [''Toyota'']. 0 \<le> lst ! k \<and> lst ! k < int (length (snd (?d ! k)))
            \<and> snd (?d ! k) ! nat (lst ! k) = [''Toyota''] ! k"
    by (auto split: if_splits)
  have ev: "CategoricalEncoder_encode ?d [''Toyota''] = Inr ([1], [3, 2])"
    by (simp add: CategoricalEncoder_encode_def values_of_def py_index_def)
  with l(1) have "lst = [1]" by simp
  with l(1) show ?thesis by simp
qed

end
